theory Spec2Isabelle
  imports Main "HOL-Library.Word" "HOL-Library.Sublist"
begin

section \<open>JavaScript strings\<close>

text \<open>
  A JavaScript string is a sequence of UTF-16 code units. String literals of the source
  that are plain ASCII are written through \<open>ascii\<close>; the Chinese texts and the
  emoji of the notifications are written as their code units.
\<close>

type_synonym jsstring = "16 word list"

definition ascii :: "string \<Rightarrow> jsstring" where
  "ascii s = map (\<lambda>c. of_nat (of_char c)) s"

text \<open>
  \<open>String.prototype.trim\<close> removes, at both ends, the code units that ECMAScript calls
  WhiteSpace (TAB, VT, FF, ZWNBSP and the Unicode space separators) or LineTerminator
  (LF, CR, LS, PS). All of them lie in the Basic Multilingual Plane, so the test is one
  on single code units.
\<close>

definition is_js_whitespace :: "16 word \<Rightarrow> bool" where
  "is_js_whitespace c =
     (c = 0x0009 \<or> c = 0x000A \<or> c = 0x000B \<or> c = 0x000C \<or> c = 0x000D \<or>
      c = 0x0020 \<or> c = 0x00A0 \<or> c = 0x1680 \<or>
      (0x2000 \<le> c \<and> c \<le> 0x200A) \<or>
      c = 0x2028 \<or> c = 0x2029 \<or> c = 0x202F \<or> c = 0x205F \<or>
      c = 0x3000 \<or> c = 0xFEFF)"

definition trim :: "jsstring \<Rightarrow> jsstring" where
  "trim s = rev (dropWhile is_js_whitespace (rev (dropWhile is_js_whitespace s)))"

section \<open>The Dialog Presenter (extension/content.js)\<close>

subsection \<open>The page\<close>

text \<open>
  The overlay that one call of \<open>showPromptInputDialog\<close> builds is one node of the
  document. It carries what the closures of that call hold (\<open>imageUrl\<close>,
  \<open>pageUrl\<close>) and the state of its two controls: the value of the textarea
  \<open>bananadb-prompt-input\<close> and the checked flag of \<open>bananadb-skip-ai-checkbox\<close>.
  \<open>sid\<close> is the identity of the node (JavaScript compares elements by identity).

  An element of the host page is kept by its identity \<open>hkey\<close>, its \<open>id\<close>
  attribute, its \<open>value\<close> property when that is a string (\<open>None\<close> otherwise: a
  \<open>div\<close> has none, a \<open>progress\<close> has a number) and its \<open>checked\<close> property
  (\<open>None\<close> when it is \<open>undefined\<close>). The host elements of the model are the
  elements beside the overlay: the \<open>html\<close> and \<open>body\<close> elements, which contain
  the overlay, are not among them (a page whose \<open>html\<close> or \<open>body\<close> carries one
  of the identifiers of the dialog is outside the model), none of them contains another
  one, and the host page does not change them. Styling, focus and console output are
  not part of the state.
\<close>

record dialog =
  sid :: nat
  imageUrl :: jsstring
  pageUrl :: jsstring
  textarea_value :: jsstring
  skip_checked :: bool

record host_element =
  hkey :: nat
  host_id :: jsstring
  host_value :: "jsstring option"
  host_checked :: "bool option"

datatype node = Overlay dialog | Host host_element

text \<open>
  The parts of an overlay a click can have as its target: the overlay element itself, the
  dialog box (with its heading, paragraph and labels), the textarea, the checkbox and the
  two buttons.
\<close>

datatype target = OverlayBackground | DialogBox | Textarea | Checkbox | CancelBtn | SaveBtn

text \<open>An element: a part of the overlay with identity \<open>n\<close>, or the host element with a key.\<close>

datatype elem_ref = Own nat target | HostElem nat

text \<open>
  The two click listeners that are attached to what \<open>document.getElementById\<close>
  returns. \<open>CancelListener n\<close> closes over the overlay \<open>n\<close>. \<open>SaveListener n ta\<close>
  closes over the overlay \<open>n\<close> (with its \<open>imageUrl\<close> and \<open>pageUrl\<close>) and over
  the element \<open>ta\<close> that the variable \<open>textarea\<close> is bound to.
\<close>

datatype listener = CancelListener nat | SaveListener nat elem_ref

text \<open>\<open>skipAI\<close> is \<open>None\<close> when the \<open>checked\<close> property read is \<open>undefined\<close>.\<close>

record save_message =
  action :: jsstring
  msg_imageUrl :: jsstring
  msg_pageUrl :: jsstring
  promptText :: jsstring
  skipAI :: "bool option"

text \<open>
  \<open>elements\<close>: the nodes of the document, in document order.
  \<open>detached\<close>: the overlays that were removed from the document; the listeners
  that close over them still hold them.
  \<open>click_listeners\<close>: the click listeners attached through
  \<open>document.getElementById\<close>, each with the element it is attached to, in the order
  of registration.
  \<open>overlay_listeners\<close>: the overlays whose own click listener is attached.
  \<open>keydown_listeners\<close>: the \<open>keydown\<close> listeners registered on \<open>document\<close>, in
  the order of registration; the listener \<open>escHandler\<close> of the call that built
  overlay \<open>n\<close> is the entry \<open>n\<close>.
  \<open>outbox\<close>: the messages given to \<open>chrome.runtime.sendMessage\<close>, oldest first.
  \<open>next_sid\<close>: the identity the next created overlay gets.
\<close>

record page =
  elements :: "node list"
  detached :: "dialog list"
  click_listeners :: "(elem_ref \<times> listener) list"
  overlay_listeners :: "nat list"
  keydown_listeners :: "nat list"
  outbox :: "save_message list"
  next_sid :: nat

text \<open>The dialog sessions of a document: its overlays. Its host elements.\<close>

fun sessions :: "node list \<Rightarrow> dialog list" where
  "sessions [] = []"
| "sessions (Overlay d # es) = d # sessions es"
| "sessions (Host h # es) = sessions es"

fun hosts :: "node list \<Rightarrow> host_element list" where
  "hosts [] = []"
| "hosts (Overlay d # es) = hosts es"
| "hosts (Host h # es) = h # hosts es"

text \<open>
  \<open>document.getElementById\<close>: the first element in document order with the given
  \<open>id\<close>. Five elements of an overlay have one; the dialog box has none.
\<close>

definition inner_target :: "jsstring \<Rightarrow> target option" where
  "inner_target i =
     (if i = ascii ''bananadb-dialog'' then Some OverlayBackground
      else if i = ascii ''bananadb-prompt-input'' then Some Textarea
      else if i = ascii ''bananadb-skip-ai-checkbox'' then Some Checkbox
      else if i = ascii ''bananadb-cancel-btn'' then Some CancelBtn
      else if i = ascii ''bananadb-save-btn'' then Some SaveBtn
      else None)"

fun node_lookup :: "jsstring \<Rightarrow> node \<Rightarrow> elem_ref option" where
  "node_lookup i (Overlay d) = map_option (Own (sid d)) (inner_target i)"
| "node_lookup i (Host h) = (if host_id h = i then Some (HostElem (hkey h)) else None)"

fun first_match :: "jsstring \<Rightarrow> node list \<Rightarrow> elem_ref option" where
  "first_match i [] = None"
| "first_match i (e # es) =
     (case node_lookup i e of Some r \<Rightarrow> Some r | None \<Rightarrow> first_match i es)"

definition getElementById :: "page \<Rightarrow> jsstring \<Rightarrow> elem_ref option" where
  "getElementById p i = first_match i (elements p)"

fun is_overlay :: "nat \<Rightarrow> node \<Rightarrow> bool" where
  "is_overlay n (Overlay d) = (sid d = n)"
| "is_overlay n (Host h) = False"

text \<open>
  \<open>overlay.remove()\<close>: detaches the node, which the closures keep; on a detached node
  it does nothing.
\<close>

definition remove_overlay :: "nat \<Rightarrow> page \<Rightarrow> page" where
  "remove_overlay n p =
     p\<lparr>elements := filter (\<lambda>e. \<not> is_overlay n e) (elements p),
       detached := detached p @ sessions (filter (is_overlay n) (elements p))\<rparr>"

fun find_overlay :: "nat \<Rightarrow> node list \<Rightarrow> dialog option" where
  "find_overlay n [] = None"
| "find_overlay n (Overlay d # es) = (if sid d = n then Some d else find_overlay n es)"
| "find_overlay n (Host h # es) = find_overlay n es"

fun find_host :: "nat \<Rightarrow> node list \<Rightarrow> host_element option" where
  "find_host k [] = None"
| "find_host k (Overlay d # es) = find_host k es"
| "find_host k (Host h # es) = (if hkey h = k then Some h else find_host k es)"

text \<open>The overlay with identity \<open>n\<close>, in the document or detached.\<close>

definition lookup_dialog :: "nat \<Rightarrow> page \<Rightarrow> dialog option" where
  "lookup_dialog n p =
     (case find_overlay n (elements p) of
        Some d \<Rightarrow> Some d
      | None \<Rightarrow> find (\<lambda>d. sid d = n) (detached p))"

text \<open>
  The \<open>value\<close> property of an element when it is a string: the text of the textarea,
  \<open>on\<close> for the checkbox (it has no \<open>value\<close> attribute), the empty string for the
  buttons; the two \<open>div\<close>s have none. The \<open>checked\<close> property: the flag of the
  checkbox, \<open>undefined\<close> on the other parts of the overlay. (An element that does not
  exist gives \<open>None\<close>: no reference to it exists either.)
\<close>

fun value_of :: "elem_ref \<Rightarrow> page \<Rightarrow> jsstring option" where
  "value_of (Own n Textarea) p = map_option textarea_value (lookup_dialog n p)"
| "value_of (Own n Checkbox) p = Some (ascii ''on'')"
| "value_of (Own n CancelBtn) p = Some []"
| "value_of (Own n SaveBtn) p = Some []"
| "value_of (Own n OverlayBackground) p = None"
| "value_of (Own n DialogBox) p = None"
| "value_of (HostElem k) p =
     (case find_host k (elements p) of None \<Rightarrow> None | Some h \<Rightarrow> host_value h)"

fun checked_of :: "elem_ref \<Rightarrow> page \<Rightarrow> bool option" where
  "checked_of (Own n Checkbox) p = map_option skip_checked (lookup_dialog n p)"
| "checked_of (Own n t) p = None"
| "checked_of (HostElem k) p =
     (case find_host k (elements p) of None \<Rightarrow> None | Some h \<Rightarrow> host_checked h)"

subsection \<open>showPromptInputDialog\<close>

text \<open>
  Lines 17 to 167. After \<open>appendChild\<close> the function looks up the textarea and the two
  buttons with \<open>document.getElementById\<close>, which gives the first element of the
  document with that \<open>id\<close>: a host element, if the host page has one. A lookup that
  gave \<open>null\<close> would end the call with a \<open>TypeError\<close>, the statements after it not
  executed; these are the \<open>None\<close> branches.
\<close>

definition showPromptInputDialog :: "jsstring \<Rightarrow> jsstring \<Rightarrow> page \<Rightarrow> page" where
  "showPromptInputDialog iu pu p =
     (if getElementById p (ascii ''bananadb-dialog'') \<noteq> None then p
      else
        (let n = next_sid p;
             p1 = p\<lparr>elements := elements p @
                        [Overlay \<lparr>sid = n, imageUrl = iu, pageUrl = pu,
                                  textarea_value = [], skip_checked = False\<rparr>],
                     next_sid := Suc n\<rparr>
         in case getElementById p1 (ascii ''bananadb-prompt-input'') of
              None \<Rightarrow> p1
            | Some textarea \<Rightarrow>
                (case getElementById p1 (ascii ''bananadb-cancel-btn'') of
                   None \<Rightarrow> p1
                 | Some cancel_btn \<Rightarrow>
                     (case getElementById p1 (ascii ''bananadb-save-btn'') of
                        None \<Rightarrow>
                          p1\<lparr>click_listeners := click_listeners p1 @
                                [(cancel_btn, CancelListener n)]\<rparr>
                      | Some save_btn \<Rightarrow>
                          p1\<lparr>click_listeners := click_listeners p1 @
                                [(cancel_btn, CancelListener n),
                                 (save_btn, SaveListener n textarea)],
                             overlay_listeners := overlay_listeners p1 @ [n],
                             keydown_listeners := keydown_listeners p1 @ [n]\<rparr>))))"

text \<open>The listeners the call registers.\<close>

definition cancel_listener :: "nat \<Rightarrow> page \<Rightarrow> page" where
  "cancel_listener n p = remove_overlay n p"

text \<open>
  Lines 136 to 150. \<open>textarea.value.trim()\<close> throws when the element the variable is
  bound to has no string \<open>value\<close>; the checkbox is looked up when the listener runs,
  and reading \<open>checked\<close> of \<open>null\<close> throws. A listener that throws has sent nothing
  and has not removed the overlay. \<open>imageUrl\<close> and \<open>pageUrl\<close> are those of the
  overlay the listener closes over, which exists, in the document or detached, whenever
  the listener does.
\<close>

definition save_listener :: "nat \<Rightarrow> elem_ref \<Rightarrow> page \<Rightarrow> page" where
  "save_listener n textarea p =
     (case value_of textarea p of
        None \<Rightarrow> p
      | Some v \<Rightarrow>
          (case getElementById p (ascii ''bananadb-skip-ai-checkbox'') of
             None \<Rightarrow> p
           | Some checkbox \<Rightarrow>
               (case lookup_dialog n p of
                  None \<Rightarrow> p
                | Some d \<Rightarrow>
                    remove_overlay n
                      (p\<lparr>outbox := outbox p @
                           [\<lparr>action = ascii ''saveImage'', msg_imageUrl = imageUrl d,
                             msg_pageUrl = pageUrl d, promptText = trim v,
                             skipAI = checked_of checkbox p\<rparr>]\<rparr>))))"

text \<open>The overlay's own click listener: \<open>if (e.target === overlay) overlay.remove()\<close>.\<close>

definition overlay_listener :: "dialog \<Rightarrow> target \<Rightarrow> page \<Rightarrow> page" where
  "overlay_listener d t p = (if t = OverlayBackground then remove_overlay (sid d) p else p)"

definition escHandler :: "nat \<Rightarrow> jsstring \<Rightarrow> page \<Rightarrow> page" where
  "escHandler n key p =
     (if key = ascii ''Escape''
      then (remove_overlay n p)\<lparr>keydown_listeners := removeAll n (keydown_listeners p)\<rparr>
      else p)"

subsection \<open>The browser's event dispatch\<close>

text \<open>
  A user can click only an element that is in the document. The click runs the listeners
  attached to its target, in the order of their registration (a listener that throws does
  not stop the next one), then bubbles to the overlay (the path is fixed when the
  dispatch starts, so the overlay's listener still runs after a button's listener
  detached the overlay). The source attaches click listeners to the overlay and to what
  the lookups of the two button identifiers return, so of the parts of an overlay only
  its buttons can have one. A click on the checkbox toggles it. A click on a host
  element runs the listeners attached to it. A \<open>keydown\<close> reaches every listener
  registered on \<open>document\<close> when the dispatch starts. \<open>Input\<close> is the user editing the
  textarea. \<open>ShowPromptDialog\<close> is the message of the background script: the content
  script's \<open>onMessage\<close> listener calls \<open>showPromptInputDialog\<close> for it. A script that
  was injected several times has as many \<open>onMessage\<close> listeners, and one message is
  then several \<open>ShowPromptDialog\<close> events in a row.
\<close>

fun run_listener :: "listener \<Rightarrow> page \<Rightarrow> page" where
  "run_listener (CancelListener n) p = cancel_listener n p"
| "run_listener (SaveListener n textarea) p = save_listener n textarea p"

definition listeners_on :: "elem_ref \<Rightarrow> page \<Rightarrow> listener list" where
  "listeners_on r p = map snd (filter (\<lambda>x. fst x = r) (click_listeners p))"

definition fire :: "elem_ref \<Rightarrow> page \<Rightarrow> page" where
  "fire r p = fold run_listener (listeners_on r p) p"

fun update_overlay :: "nat \<Rightarrow> (dialog \<Rightarrow> dialog) \<Rightarrow> node list \<Rightarrow> node list" where
  "update_overlay n f [] = []"
| "update_overlay n f (Overlay d # es) =
     (if sid d = n then Overlay (f d) else Overlay d) # update_overlay n f es"
| "update_overlay n f (Host h # es) = Host h # update_overlay n f es"

fun target_listener :: "nat \<Rightarrow> target \<Rightarrow> page \<Rightarrow> page" where
  "target_listener n CancelBtn p = fire (Own n CancelBtn) p"
| "target_listener n SaveBtn p = fire (Own n SaveBtn) p"
| "target_listener n Checkbox p =
     p\<lparr>elements := update_overlay n (\<lambda>x. x\<lparr>skip_checked := \<not> skip_checked x\<rparr>) (elements p)\<rparr>"
| "target_listener n t p = p"

definition click :: "nat \<Rightarrow> target \<Rightarrow> page \<Rightarrow> page" where
  "click n t p =
     (case find_overlay n (elements p) of
        None \<Rightarrow> p
      | Some d \<Rightarrow>
          (if n \<in> set (overlay_listeners p)
           then overlay_listener d t (target_listener n t p)
           else target_listener n t p))"

definition click_host :: "nat \<Rightarrow> page \<Rightarrow> page" where
  "click_host k p =
     (case find_host k (elements p) of
        None \<Rightarrow> p
      | Some h \<Rightarrow> fire (HostElem k) p)"

definition keydown :: "jsstring \<Rightarrow> page \<Rightarrow> page" where
  "keydown key p = fold (\<lambda>n q. escHandler n key q) (keydown_listeners p) p"

definition input :: "nat \<Rightarrow> jsstring \<Rightarrow> page \<Rightarrow> page" where
  "input n s p = p\<lparr>elements := update_overlay n (\<lambda>x. x\<lparr>textarea_value := s\<rparr>) (elements p)\<rparr>"

datatype event =
    ShowPromptDialog jsstring jsstring
  | Click nat target
  | ClickHost nat
  | Input nat jsstring
  | KeyDown jsstring

fun step :: "page \<Rightarrow> event \<Rightarrow> page" where
  "step p (ShowPromptDialog iu pu) = showPromptInputDialog iu pu p"
| "step p (Click n t) = click n t p"
| "step p (ClickHost k) = click_host k p"
| "step p (Input n s) = input n s p"
| "step p (KeyDown k) = keydown k p"

definition run :: "page \<Rightarrow> event list \<Rightarrow> page" where
  "run p es = foldl step p es"

text \<open>A page the content script has not touched: the host's own elements only.\<close>

definition fresh_page :: "host_element list \<Rightarrow> page" where
  "fresh_page hs =
     \<lparr>elements = map Host hs, detached = [], click_listeners = [], overlay_listeners = [],
       keydown_listeners = [], outbox = [], next_sid = 0\<rparr>"

text \<open>
  The four identifiers that \<open>showPromptInputDialog\<close> and its Save listener look up in
  the whole document, and the host pages without an element of their own that has one.
\<close>

definition inner_ids :: "jsstring list" where
  "inner_ids =
     [ascii ''bananadb-prompt-input'', ascii ''bananadb-skip-ai-checkbox'',
      ascii ''bananadb-cancel-btn'', ascii ''bananadb-save-btn'']"

definition inner_ids_free :: "host_element list \<Rightarrow> bool" where
  "inner_ids_free hs = list_all (\<lambda>h. host_id h \<notin> set inner_ids) hs"

text \<open>
  The listeners registered by the first \<open>k\<close> calls that built an overlay, when every
  lookup found the overlay's own control.
\<close>

definition bindings :: "nat \<Rightarrow> (elem_ref \<times> listener) list" where
  "bindings k =
     concat (map (\<lambda>n. [(Own n CancelBtn, CancelListener n),
                        (Own n SaveBtn, SaveListener n (Own n Textarea))]) [0..<k])"

text \<open>
  The invariant of the pages the content script builds: every overlay in the document
  was created before, so its identity is below \<open>next_sid\<close>.
\<close>

definition wf_page :: "page \<Rightarrow> bool" where
  "wf_page p = list_all (\<lambda>d. sid d < next_sid p) (sessions (elements p))"

text \<open>
  The invariant of the pages built on a host page that is free of the inner identifiers:
  at most one overlay is in the document, and the registered listeners are those of the
  overlays' own controls.
\<close>

definition page_inv :: "page \<Rightarrow> bool" where
  "page_inv p =
     (inner_ids_free (hosts (elements p)) \<and> length (sessions (elements p)) \<le> 1 \<and>
      wf_page p \<and> click_listeners p = bindings (next_sid p) \<and>
      overlay_listeners p = [0..<next_sid p])"

text \<open>
  The save messages sent along a run in the steps that are a click on the Save button of
  overlay \<open>n\<close>: what the outbox gains in these steps.
\<close>

fun sent_by :: "nat \<Rightarrow> page \<Rightarrow> event list \<Rightarrow> save_message list" where
  "sent_by n p [] = []"
| "sent_by n p (e # es) =
     (if e = Click n SaveBtn then drop (length (outbox p)) (outbox (step p e)) else [])
     @ sent_by n (step p e) es"


section \<open>The Capture Coordinator (background script, unnamed/part_000)\<close>

subsection \<open>Values parsed from JSON, and their conversions\<close>

text \<open>
  What \<open>response.json()\<close> yields. \<open>JNum\<close> holds a Number whose value is an
  integer (a record identifier); fractional Numbers are outside the model. \<open>JObj\<close>
  lists the own properties of the parsed object, each key once. \<open>undefined\<close> is
  \<open>None\<close> of \<open>json option\<close>.
\<close>

datatype json =
    JNull
  | JBool bool
  | JNum int
  | JStr jsstring
  | JArr "json list"
  | JObj "(jsstring \<times> json) list"

text \<open>A thrown \<open>Error\<close> object, by its \<open>message\<close>.\<close>

datatype js_error = Error (message: jsstring)

fun decimal :: "nat \<Rightarrow> jsstring" where
  "decimal n = (if n < 10 then [of_nat (48 + n)]
                else decimal (n div 10) @ [of_nat (48 + n mod 10)])"

declare decimal.simps [simp del]

text \<open>
  \<open>ToString\<close> of a Number whose value is the integer \<open>i\<close>. Up to
  \<open>Number.MAX_SAFE_INTEGER\<close> (\<open>2^53 - 1\<close>) in magnitude every integer is a Number
  and is printed with its own decimal digits (\<open>exact_digits\<close>, which is also the
  printing function given where one is needed at a concrete input without a larger
  number). Beyond that the text is made of the
  shortest digits that read back as the same double (\<open>2^64\<close> is printed
  \<open>18446744073709552000\<close>), in exponent form from \<open>10^21\<close> on; this is
  floating-point work of the engine and is taken as the parameter \<open>big\<close>.
\<close>

definition exact_digits :: "int \<Rightarrow> jsstring" where
  "exact_digits i = (if i < 0 then ascii ''-'' @ decimal (nat (- i)) else decimal (nat i))"

definition int_to_string :: "(int \<Rightarrow> jsstring) \<Rightarrow> int \<Rightarrow> jsstring" where
  "int_to_string big i = (if \<bar>i\<bar> \<le> 9007199254740991 then exact_digits i else big i)"

text \<open>
  The texts of the \<open>TypeError\<close>s are those of V8, the engine of the browser whose
  \<open>chrome.*\<close> interface the extension calls.
\<close>

definition read_error :: "string \<Rightarrow> string \<Rightarrow> js_error" where
  "read_error base prop =
     Error (ascii ''Cannot read properties of '' @ ascii base @ ascii '' (reading '' @
            [0x27] @ ascii prop @ [0x27] @ ascii '')'')"

definition convert_error :: js_error where
  "convert_error = Error (ascii ''Cannot convert object to primitive value'')"

text \<open>
  \<open>ToString\<close>, as a template literal and \<open>new Error(...)\<close> apply it. An array is
  joined with commas, \<open>null\<close> elements giving the empty string. A plain object gives
  \<open>[object Object]\<close> through \<open>Object.prototype.toString\<close>, unless it has an own
  property \<open>toString\<close>: a parsed value is never callable, \<open>valueOf\<close> returns the
  object itself, and the conversion throws.
\<close>

fun to_string :: "(int \<Rightarrow> jsstring) \<Rightarrow> json \<Rightarrow> js_error + jsstring"
  and join_elements :: "(int \<Rightarrow> jsstring) \<Rightarrow> json list \<Rightarrow> js_error + jsstring"
  and element_string :: "(int \<Rightarrow> jsstring) \<Rightarrow> json \<Rightarrow> js_error + jsstring" where
  "to_string big JNull = Inr (ascii ''null'')"
| "to_string big (JBool b) = Inr (if b then ascii ''true'' else ascii ''false'')"
| "to_string big (JNum i) = Inr (int_to_string big i)"
| "to_string big (JStr s) = Inr s"
| "to_string big (JArr xs) = join_elements big xs"
| "to_string big (JObj kvs) =
     (if map_of kvs (ascii ''toString'') \<noteq> None then Inl convert_error
      else Inr (ascii ''[object Object]''))"
| "join_elements big [] = Inr []"
| "join_elements big [x] = element_string big x"
| "join_elements big (x # y # ys) =
     (case element_string big x of
        Inl e \<Rightarrow> Inl e
      | Inr s \<Rightarrow>
          (case join_elements big (y # ys) of
             Inl e \<Rightarrow> Inl e
           | Inr r \<Rightarrow> Inr (s @ ascii '','' @ r)))"
| "element_string big JNull = Inr []"
| "element_string big (JBool b) = to_string big (JBool b)"
| "element_string big (JNum i) = to_string big (JNum i)"
| "element_string big (JStr s) = to_string big (JStr s)"
| "element_string big (JArr xs) = to_string big (JArr xs)"
| "element_string big (JObj kvs) = to_string big (JObj kvs)"

fun to_string_opt :: "(int \<Rightarrow> jsstring) \<Rightarrow> json option \<Rightarrow> js_error + jsstring" where
  "to_string_opt big None = Inr (ascii ''undefined'')"
| "to_string_opt big (Some v) = to_string big v"

text \<open>\<open>ToBoolean\<close>, as \<open>||\<close> applies it.\<close>

fun truthy :: "json option \<Rightarrow> bool" where
  "truthy None = False"
| "truthy (Some JNull) = False"
| "truthy (Some (JBool b)) = b"
| "truthy (Some (JNum i)) = (i \<noteq> 0)"
| "truthy (Some (JStr s)) = (s \<noteq> [])"
| "truthy (Some (JArr xs)) = True"
| "truthy (Some (JObj kvs)) = True"

text \<open>
  Reading a property named \<open>data\<close>, \<open>detail\<close> or \<open>image_id\<close> (no prototype has
  one of these): a \<open>TypeError\<close> on \<open>undefined\<close> and \<open>null\<close>, the own property of
  an object, \<open>undefined\<close> on every other value.
\<close>

fun get_prop :: "json option \<Rightarrow> string \<Rightarrow> js_error + json option" where
  "get_prop None k = Inl (read_error ''undefined'' k)"
| "get_prop (Some JNull) k = Inl (read_error ''null'' k)"
| "get_prop (Some (JObj kvs)) k = Inr (map_of kvs (ascii k))"
| "get_prop (Some v) k = Inr None"

subsection \<open>The coordinator's effects\<close>

text \<open>
  A notification is kept by its \<open>title\<close> and \<open>message\<close>; its type, icon and
  priority are the same in every call of \<open>showNotification\<close>.
\<close>

record notification =
  title :: jsstring
  note_message :: jsstring

record dialog_request =
  req_action :: jsstring
  req_imageUrl :: jsstring
  req_pageUrl :: jsstring

text \<open>The \<open>fetch\<close> call: the URL, the method, the content type and the fields of the body.\<close>

record http_request =
  url :: jsstring
  http_method :: jsstring
  content_type :: jsstring
  image_url :: jsstring
  page_url :: jsstring
  context_text :: jsstring
  skip_ai :: bool

text \<open>
  \<open>notifications\<close>: the calls of \<open>chrome.notifications.create\<close>, oldest first.
  \<open>injections\<close>: the tabs \<open>chrome.scripting.executeScript\<close> was called for.
  \<open>tab_messages\<close>: the calls of \<open>chrome.tabs.sendMessage\<close>.
  \<open>http_calls\<close>: the calls of \<open>fetch\<close>.
\<close>

record background =
  notifications :: "notification list"
  injections :: "nat list"
  tab_messages :: "(nat \<times> dialog_request) list"
  http_calls :: "http_request list"

definition showNotification :: "jsstring \<Rightarrow> jsstring \<Rightarrow> background \<Rightarrow> background" where
  "showNotification t m s = s\<lparr>notifications := notifications s @ [\<lparr>title = t, note_message = m\<rparr>]\<rparr>"

definition API_BASE_URL :: jsstring where
  "API_BASE_URL = ascii ''http://localhost:8000''"

definition success_title :: jsstring where
  "success_title = [0x2705, 0x20, 0x5132, 0x5B58, 0x6210, 0x529F]"

definition failure_title :: jsstring where
  "failure_title = [0x274C, 0x20, 0x5132, 0x5B58, 0x5931, 0x6557]"

definition error_title :: jsstring where
  "error_title = [0x274C, 0x20, 0x932F, 0x8AA4]"

definition no_image_url_text :: jsstring where
  "no_image_url_text = [0x7121, 0x6CD5, 0x53D6, 0x5F97, 0x5716, 0x7247] @ ascii '' URL''"

definition handling_failed_text :: jsstring where
  "handling_failed_text = [0x8655, 0x7406, 0x5931, 0x6557]"

definition added_text :: jsstring where
  "added_text = [0x5716, 0x7247, 0x5DF2, 0x65B0, 0x589E, 0x81F3] @ ascii '' BananaDB (ID: ''"

definition server_unreachable_text :: jsstring where
  "server_unreachable_text =
     [0x8ACB, 0x78BA, 0x8A8D] @ ascii '' BananaDB '' @
     [0x4F3A, 0x670D, 0x5668, 0x6B63, 0x5728, 0x57F7, 0x884C] @
     ascii '' (http://localhost:8000)''"

subsection \<open>The context-menu click\<close>

record click_info =
  menuItemId :: jsstring
  srcUrl :: "jsstring option"

record tab =
  tab_id :: nat
  tab_url :: "jsstring option"

text \<open>\<open>x || ''\<close> and \<open>!x\<close> on a string that may be \<open>undefined\<close>.\<close>

fun or_empty :: "jsstring option \<Rightarrow> jsstring" where
  "or_empty None = []"
| "or_empty (Some u) = u"

text \<open>\<open>x || false\<close> on a boolean that may be \<open>undefined\<close>.\<close>

fun or_false :: "bool option \<Rightarrow> bool" where
  "or_false None = False"
| "or_false (Some b) = (b \<or> False)"

text \<open>
  The listener of \<open>chrome.contextMenus.onClicked\<close>. \<open>tb\<close> is \<open>None\<close> when the
  browser passes no tab; \<open>injected\<close> is the error \<open>executeScript\<close> rejects with, if it
  does (the inner \<open>catch\<close> only logs it).
\<close>

definition onClicked :: "click_info \<Rightarrow> tab option \<Rightarrow> js_error option \<Rightarrow> background \<Rightarrow> background" where
  "onClicked info tb injected s =
     (if menuItemId info \<noteq> ascii ''saveToBananaDB'' then s
      else if or_empty (srcUrl info) = [] then showNotification error_title no_image_url_text s
      else
        (case tb of
           None \<Rightarrow>
             (let e = read_error ''undefined'' ''url'' in
              showNotification error_title
                (if message e = [] then handling_failed_text else message e) s)
         | Some t \<Rightarrow>
             (let s1 = s\<lparr>injections := injections s @ [tab_id t]\<rparr>;
                  s2 = (case injected of None \<Rightarrow> s1 | Some e \<Rightarrow> s1)
              in s2\<lparr>tab_messages := tab_messages s2 @
                      [(tab_id t, \<lparr>req_action = ascii ''showPromptDialog'',
                                   req_imageUrl = or_empty (srcUrl info),
                                   req_pageUrl = or_empty (tab_url t)\<rparr>)]\<rparr>)))"

subsection \<open>handleSaveImage\<close>

text \<open>
  What \<open>fetch\<close> gives: a rejection (its error), or a response. A response is kept by its
  status (an \<open>unsigned short\<close>) and by what \<open>response.json()\<close> gives: the parsed
  value, or the error it rejects with when the body does not parse. \<open>response.ok\<close> is
  true for the statuses 200 to 299.
\<close>

record response =
  status :: "16 word"
  body_json :: "js_error + json"

datatype fetch_result = Rejected js_error | Responded response

definition response_ok :: "response \<Rightarrow> bool" where
  "response_ok r = (200 \<le> status r \<and> status r \<le> 299)"

text \<open>
  Lines 93 and 94: what is thrown for a response that is not ok.
  \<open>errorData\<close> is the parsed body, or \<open>{}\<close> when the body does not parse.
\<close>

definition response_error :: "(int \<Rightarrow> jsstring) \<Rightarrow> response \<Rightarrow> js_error" where
  "response_error big r =
     (let errorData = (case body_json r of Inl e \<Rightarrow> JObj [] | Inr v \<Rightarrow> v) in
      case get_prop (Some errorData) ''detail'' of
        Inl e \<Rightarrow> e
      | Inr detail \<Rightarrow>
          (if truthy detail
           then (case to_string_opt big detail of Inl e \<Rightarrow> e | Inr m \<Rightarrow> Error m)
           else Error (ascii ''HTTP '' @ decimal (unat (status r)))))"

text \<open>Lines 97 to 103: the text of the success notification, or what evaluating it throws.\<close>

definition success_text :: "(int \<Rightarrow> jsstring) \<Rightarrow> json \<Rightarrow> js_error + jsstring" where
  "success_text big result =
     (case get_prop (Some result) ''data'' of
        Inl e \<Rightarrow> Inl e
      | Inr d \<Rightarrow>
          (case get_prop d ''image_id'' of
             Inl e \<Rightarrow> Inl e
           | Inr i \<Rightarrow>
               (case to_string_opt big i of
                  Inl e \<Rightarrow> Inl e
                | Inr t \<Rightarrow> Inr (added_text @ t @ ascii '')''))))"

text \<open>The \<open>try\<close> block after the \<open>fetch\<close>: the text to announce, or the error thrown.\<close>

definition try_block :: "(int \<Rightarrow> jsstring) \<Rightarrow> fetch_result \<Rightarrow> js_error + jsstring" where
  "try_block big fr =
     (case fr of
        Rejected e \<Rightarrow> Inl e
      | Responded r \<Rightarrow>
          (if \<not> response_ok r then Inl (response_error big r)
           else (case body_json r of Inl e \<Rightarrow> Inl e | Inr result \<Rightarrow> success_text big result)))"

text \<open>
  \<open>handleSaveImage\<close> is an \<open>async\<close> function: \<open>Inl\<close> would be the rejection of its
  promise, \<open>Inr\<close> is its normal completion with the effects it had. \<open>skip\<close> is
  \<open>None\<close> when the message had no \<open>skipAI\<close>.
\<close>

definition handleSaveImage ::
  "(int \<Rightarrow> jsstring) \<Rightarrow> jsstring \<Rightarrow> jsstring \<Rightarrow> jsstring \<Rightarrow> bool option \<Rightarrow> fetch_result \<Rightarrow>
     background \<Rightarrow> js_error + background" where
  "handleSaveImage big iu pu pt skip fr s =
     (let s1 = s\<lparr>http_calls := http_calls s @
                  [\<lparr>url = API_BASE_URL @ ascii ''/api/collect_url'',
                    http_method = ascii ''POST'',
                    content_type = ascii ''application/json'',
                    image_url = iu, page_url = pu, context_text = pt,
                    skip_ai = or_false skip\<rparr>]\<rparr>
      in case try_block big fr of
           Inr t \<Rightarrow> Inr (showNotification success_title t s1)
         | Inl e \<Rightarrow>
             Inr (showNotification failure_title
                    (if message e = [] then server_unreachable_text else message e) s1))"

text \<open>The coordinator's \<open>onMessage\<close> listener for the save request of the content script.\<close>

definition onMessage ::
  "(int \<Rightarrow> jsstring) \<Rightarrow> save_message \<Rightarrow> fetch_result \<Rightarrow> background \<Rightarrow> js_error + background" where
  "onMessage big request fr s =
     (if action request = ascii ''saveImage''
      then handleSaveImage big (msg_imageUrl request) (msg_pageUrl request)
             (promptText request) (skipAI request) fr s
      else Inr s)"

definition idle :: background where
  "idle = \<lparr>notifications = [], injections = [], tab_messages = [], http_calls = []\<rparr>"

section \<open>Properties of the Dialog Presenter\<close>

subsection \<open>Overlays of a document\<close>

lemma sessions_append: "sessions (xs @ ys) = sessions xs @ sessions ys"
  by (induction xs rule: sessions.induct) auto

lemma hosts_append: "hosts (xs @ ys) = hosts xs @ hosts ys"
  by (induction xs rule: sessions.induct) auto

lemma sessions_filter_le: "length (sessions (filter P es)) \<le> length (sessions es)"
  by (induction es rule: sessions.induct) auto

lemma sessions_filter_subset: "set (sessions (filter P es)) \<subseteq> set (sessions es)"
  by (induction es rule: sessions.induct) auto

lemma sessions_update_overlay:
  "sessions (update_overlay n f es) = map (\<lambda>d. if sid d = n then f d else d) (sessions es)"
  by (induction es rule: sessions.induct) auto

lemma hosts_update_overlay [simp]: "hosts (update_overlay n f es) = hosts es"
  by (induction es rule: sessions.induct) auto

lemma hosts_remove [simp]: "hosts (filter (\<lambda>e. \<not> is_overlay n e) es) = hosts es"
  by (induction es rule: sessions.induct) auto

lemma inner_target_dialog [simp]:
  "inner_target (ascii ''bananadb-dialog'') = Some OverlayBackground"
  by (simp add: inner_target_def)

lemma inner_target_prompt [simp]:
  "inner_target (ascii ''bananadb-prompt-input'') = Some Textarea"
  by (simp add: inner_target_def ascii_def)

lemma inner_target_checkbox [simp]:
  "inner_target (ascii ''bananadb-skip-ai-checkbox'') = Some Checkbox"
  by (simp add: inner_target_def ascii_def)

lemma inner_target_cancel [simp]:
  "inner_target (ascii ''bananadb-cancel-btn'') = Some CancelBtn"
  by (simp add: inner_target_def ascii_def)

lemma inner_target_save [simp]:
  "inner_target (ascii ''bananadb-save-btn'') = Some SaveBtn"
  by (simp add: inner_target_def ascii_def)

lemma no_dialog_no_sessions:
  "first_match (ascii ''bananadb-dialog'') es = None \<Longrightarrow> sessions es = []"
  by (induction es rule: sessions.induct) (auto split: option.splits)

lemma first_match_snoc:
  "inner_target i = Some t \<Longrightarrow> first_match i (es @ [Overlay d]) \<noteq> None"
  by (induction es) (auto split: option.splits)

lemma find_overlay_None: "find_overlay n es = None \<longleftrightarrow> n \<notin> sid ` set (sessions es)"
  by (induction es rule: sessions.induct) auto

lemma find_overlay_Some: "find_overlay n es = Some d \<Longrightarrow> sid d = n \<and> d \<in> set (sessions es)"
  by (induction es rule: sessions.induct) (auto split: if_splits)

lemma sessions_removed: "n \<notin> sid ` set (sessions (filter (\<lambda>e. \<not> is_overlay n e) es))"
  by (induction es rule: sessions.induct) auto

lemma find_overlay_removed [simp]: "find_overlay n (elements (remove_overlay n p)) = None"
  by (simp add: find_overlay_None remove_overlay_def sessions_removed)

lemma remove_overlay_fields [simp]:
  "next_sid (remove_overlay n p) = next_sid p"
  "outbox (remove_overlay n p) = outbox p"
  "click_listeners (remove_overlay n p) = click_listeners p"
  "overlay_listeners (remove_overlay n p) = overlay_listeners p"
  "keydown_listeners (remove_overlay n p) = keydown_listeners p"
  "hosts (elements (remove_overlay n p)) = hosts (elements p)"
  by (simp_all add: remove_overlay_def)

lemma remove_overlay_length:
  "length (sessions (elements (remove_overlay n p))) \<le> length (sessions (elements p))"
  by (simp add: remove_overlay_def sessions_filter_le)

lemma remove_overlay_subset:
  "set (sessions (elements (remove_overlay n p))) \<subseteq> set (sessions (elements p))"
  by (simp add: remove_overlay_def sessions_filter_subset)

lemma run_listener_fields [simp]:
  "next_sid (run_listener l p) = next_sid p"
  "click_listeners (run_listener l p) = click_listeners p"
  "overlay_listeners (run_listener l p) = overlay_listeners p"
  "keydown_listeners (run_listener l p) = keydown_listeners p"
  "hosts (elements (run_listener l p)) = hosts (elements p)"
  by (cases l; auto simp: cancel_listener_def save_listener_def remove_overlay_def split: option.splits)+

lemma save_listener_subset:
  "set (sessions (elements (save_listener n ta p))) \<subseteq> set (sessions (elements p))"
  using sessions_filter_subset [of "\<lambda>e. \<not> is_overlay n e" "elements p"]
  by (auto simp: save_listener_def remove_overlay_def split: option.splits)

lemma save_listener_length:
  "length (sessions (elements (save_listener n ta p))) \<le> length (sessions (elements p))"
  using sessions_filter_le [of "\<lambda>e. \<not> is_overlay n e" "elements p"]
  by (auto simp: save_listener_def remove_overlay_def split: option.splits)

lemma run_listener_subset:
  "set (sessions (elements (run_listener l p))) \<subseteq> set (sessions (elements p))"
  using remove_overlay_subset save_listener_subset by (cases l) (simp_all add: cancel_listener_def)

lemma run_listener_length:
  "length (sessions (elements (run_listener l p))) \<le> length (sessions (elements p))"
  using remove_overlay_length save_listener_length by (cases l) (simp_all add: cancel_listener_def)

lemma fold_listeners_fields [simp]:
  "next_sid (fold run_listener ls p) = next_sid p"
  "click_listeners (fold run_listener ls p) = click_listeners p"
  "overlay_listeners (fold run_listener ls p) = overlay_listeners p"
  "keydown_listeners (fold run_listener ls p) = keydown_listeners p"
  "hosts (elements (fold run_listener ls p)) = hosts (elements p)"
  by (induction ls arbitrary: p; simp)+

lemma fold_listeners_subset:
  "set (sessions (elements (fold run_listener ls p))) \<subseteq> set (sessions (elements p))"
proof (induction ls arbitrary: p)
  case Nil
  show ?case by simp
next
  case (Cons l ls)
  show ?case using Cons [of "run_listener l p"] run_listener_subset [of l p] by auto
qed

lemma fold_listeners_length:
  "length (sessions (elements (fold run_listener ls p))) \<le> length (sessions (elements p))"
proof (induction ls arbitrary: p)
  case Nil
  show ?case by simp
next
  case (Cons l ls)
  show ?case using Cons [of "run_listener l p"] run_listener_length [of l p] by (simp add: le_trans)
qed

lemma fire_fields [simp]:
  "next_sid (fire r p) = next_sid p"
  "click_listeners (fire r p) = click_listeners p"
  "overlay_listeners (fire r p) = overlay_listeners p"
  "keydown_listeners (fire r p) = keydown_listeners p"
  "hosts (elements (fire r p)) = hosts (elements p)"
  by (simp_all add: fire_def)

lemma fire_subset: "set (sessions (elements (fire r p))) \<subseteq> set (sessions (elements p))"
  by (simp add: fire_def fold_listeners_subset)

lemma fire_length: "length (sessions (elements (fire r p))) \<le> length (sessions (elements p))"
  by (simp add: fire_def fold_listeners_length)

lemma fold_esc_elements:
  "set (sessions (elements (fold (\<lambda>n q. escHandler n key q) ns p))) \<subseteq> set (sessions (elements p))"
proof (induction ns arbitrary: p)
  case Nil
  show ?case by simp
next
  case (Cons n ns)
  have "set (sessions (elements (escHandler n key p))) \<subseteq> set (sessions (elements p))"
    using remove_overlay_subset [of n p] by (auto simp: escHandler_def)
  with Cons [of "escHandler n key p"] show ?case by auto
qed

lemma fold_esc_length:
  "length (sessions (elements (fold (\<lambda>n q. escHandler n key q) ns p))) \<le> length (sessions (elements p))"
proof (induction ns arbitrary: p)
  case Nil
  show ?case by simp
next
  case (Cons n ns)
  have "length (sessions (elements (escHandler n key p))) \<le> length (sessions (elements p))"
    using remove_overlay_length [of n p] by (auto simp: escHandler_def)
  with Cons [of "escHandler n key p"] show ?case by (simp add: le_trans)
qed

lemma fold_esc_fields [simp]:
  "outbox (fold (\<lambda>n q. escHandler n key q) ns p) = outbox p"
  "next_sid (fold (\<lambda>n q. escHandler n key q) ns p) = next_sid p"
  "click_listeners (fold (\<lambda>n q. escHandler n key q) ns p) = click_listeners p"
  "overlay_listeners (fold (\<lambda>n q. escHandler n key q) ns p) = overlay_listeners p"
  "hosts (elements (fold (\<lambda>n q. escHandler n key q) ns p)) = hosts (elements p)"
  by (induction ns arbitrary: p; simp add: escHandler_def)+

lemma target_listener_length:
  "length (sessions (elements (target_listener n t p))) \<le> length (sessions (elements p))"
  using fire_length by (cases t) (simp_all add: sessions_update_overlay)

lemma overlay_listener_length:
  "length (sessions (elements (overlay_listener d t p))) \<le> length (sessions (elements p))"
  using remove_overlay_length by (simp add: overlay_listener_def)

lemma click_length:
  "length (sessions (elements (click n t p))) \<le> length (sessions (elements p))"
proof (cases "find_overlay n (elements p)")
  case None
  then show ?thesis by (simp add: click_def)
next
  case (Some d)
  have "length (sessions (elements (overlay_listener d t (target_listener n t p))))
      \<le> length (sessions (elements p))"
    using overlay_listener_length [of d t "target_listener n t p"] target_listener_length [of n t p]
    by (rule le_trans)
  then show ?thesis using Some target_listener_length [of n t p] by (simp add: click_def)
qed

lemma present_elements:
  "getElementById p (ascii ''bananadb-dialog'') = None \<Longrightarrow>
   elements (showPromptInputDialog iu pu p) = elements p @
     [Overlay \<lparr>sid = next_sid p, imageUrl = iu, pageUrl = pu,
               textarea_value = [], skip_checked = False\<rparr>] \<and>
   next_sid (showPromptInputDialog iu pu p) = Suc (next_sid p) \<and>
   outbox (showPromptInputDialog iu pu p) = outbox p"
  by (simp add: showPromptInputDialog_def Let_def split: option.splits)

lemma step_at_most_one:
  "length (sessions (elements p)) \<le> 1 \<Longrightarrow> length (sessions (elements (step p e))) \<le> 1"
proof (cases e)
  case (ShowPromptDialog iu pu)
  assume a: "length (sessions (elements p)) \<le> 1"
  show ?thesis
  proof (cases "getElementById p (ascii ''bananadb-dialog'')")
    case None
    then have "sessions (elements p) = []"
      by (simp add: getElementById_def no_dialog_no_sessions)
    then show ?thesis using ShowPromptDialog present_elements [OF None, of iu pu]
      by (simp add: sessions_append)
  next
    case (Some r)
    then show ?thesis using a ShowPromptDialog by (simp add: showPromptInputDialog_def)
  qed
next
  case (Click n t)
  assume "length (sessions (elements p)) \<le> 1"
  then show ?thesis using Click click_length [of n t p] by simp
next
  case (ClickHost k)
  assume "length (sessions (elements p)) \<le> 1"
  then show ?thesis using ClickHost fire_length [of "HostElem k" p]
    by (simp add: click_host_def split: option.splits)
next
  case (Input n s)
  assume "length (sessions (elements p)) \<le> 1"
  then show ?thesis using Input by (simp add: input_def sessions_update_overlay)
next
  case (KeyDown k)
  assume "length (sessions (elements p)) \<le> 1"
  then show ?thesis using KeyDown fold_esc_length [of k "keydown_listeners p" p]
    by (simp add: keydown_def)
qed

lemma run_at_most_one:
  "length (sessions (elements p)) \<le> 1 \<Longrightarrow> length (sessions (elements (run p es))) \<le> 1"
  unfolding run_def
proof (induction es arbitrary: p)
  case Nil
  then show ?case by simp
next
  case (Cons e es)
  from Cons.prems have "length (sessions (elements (step p e))) \<le> 1"
    by (rule step_at_most_one)
  then have "length (sessions (elements (foldl step (step p e) es))) \<le> 1"
    by (rule Cons.IH)
  then show ?case by simp
qed

lemma sessions_map_Host [simp]: "sessions (map Host hs) = []"
  by (induction hs) auto

lemma hosts_map_Host [simp]: "hosts (map Host hs) = hs"
  by (induction hs) auto

subsection \<open>One dialog at a time\<close>

text \<open>
  Claim C1. When an element with the identifier \<open>bananadb-dialog\<close> is already in the
  document, \<open>showPromptInputDialog\<close> returns with the page unchanged. When there is
  none, two calls in a row leave exactly one dialog session, the one of the first call.
  Along every run of events from a page the content script has not touched, the document
  holds at most one dialog session.
\<close>

theorem present_is_idempotent:
  "(getElementById p (ascii ''bananadb-dialog'') \<noteq> None \<longrightarrow>
      showPromptInputDialog iu pu p = p) \<and>
   (getElementById p (ascii ''bananadb-dialog'') = None \<longrightarrow>
      sessions (elements (showPromptInputDialog iu' pu' (showPromptInputDialog iu pu p))) =
        [\<lparr>sid = next_sid p, imageUrl = iu, pageUrl = pu,
          textarea_value = [], skip_checked = False\<rparr>]) \<and>
   length (sessions (elements (run (fresh_page ids) es))) \<le> 1"
proof (intro conjI impI)
  assume "getElementById p (ascii ''bananadb-dialog'') \<noteq> None"
  then show "showPromptInputDialog iu pu p = p"
    by (simp add: showPromptInputDialog_def)
next
  assume none: "getElementById p (ascii ''bananadb-dialog'') = None"
  let ?p1 = "showPromptInputDialog iu pu p"
  have old: "sessions (elements p) = []"
    using none by (simp add: getElementById_def no_dialog_no_sessions)
  have p1: "sessions (elements ?p1) =
      [\<lparr>sid = next_sid p, imageUrl = iu, pageUrl = pu, textarea_value = [], skip_checked = False\<rparr>]"
    using present_elements [OF none, of iu pu] old by (simp add: sessions_append)
  have "getElementById ?p1 (ascii ''bananadb-dialog'') \<noteq> None"
    using present_elements [OF none, of iu pu] first_match_snoc [OF inner_target_dialog]
    by (simp add: getElementById_def)
  then have "showPromptInputDialog iu' pu' ?p1 = ?p1"
    by (simp add: showPromptInputDialog_def)
  with p1 show "sessions (elements (showPromptInputDialog iu' pu' ?p1)) =
      [\<lparr>sid = next_sid p, imageUrl = iu, pageUrl = pu, textarea_value = [], skip_checked = False\<rparr>]"
    by simp
next
  have "length (sessions (elements (fresh_page ids))) \<le> 1"
    by (simp add: fresh_page_def)
  then show "length (sessions (elements (run (fresh_page ids) es))) \<le> 1"
    by (rule run_at_most_one)
qed

theorem present_is_idempotent_witness:
  "showPromptInputDialog (ascii ''b.png'') (ascii ''q'')
       (showPromptInputDialog (ascii ''a.png'') (ascii ''p'')
          (fresh_page [\<lparr>hkey = 0, host_id = ascii ''main'', host_value = None, host_checked = None\<rparr>])) =
     showPromptInputDialog (ascii ''a.png'') (ascii ''p'')
       (fresh_page [\<lparr>hkey = 0, host_id = ascii ''main'', host_value = None, host_checked = None\<rparr>]) \<and>
   sessions (elements (showPromptInputDialog (ascii ''b.png'') (ascii ''q'')
       (showPromptInputDialog (ascii ''a.png'') (ascii ''p'')
          (fresh_page [\<lparr>hkey = 0, host_id = ascii ''main'', host_value = None, host_checked = None\<rparr>])))) =
     [\<lparr>sid = 0, imageUrl = ascii ''a.png'', pageUrl = ascii ''p'',
       textarea_value = [], skip_checked = False\<rparr>] \<and>
   length (sessions (elements (run
       (fresh_page [\<lparr>hkey = 0, host_id = ascii ''main'', host_value = None, host_checked = None\<rparr>])
       [ShowPromptDialog (ascii ''a.png'') (ascii ''p''),
        ShowPromptDialog (ascii ''b.png'') (ascii ''q'')]))) \<le> 1"
proof -
  let ?hs = "[\<lparr>hkey = 0, host_id = ascii ''main'', host_value = None, host_checked = None\<rparr>]"
  let ?p0 = "fresh_page ?hs"
  let ?p1 = "showPromptInputDialog (ascii ''a.png'') (ascii ''p'') ?p0"
  have h0: "getElementById ?p0 (ascii ''bananadb-dialog'') = None"
    by (simp add: getElementById_def fresh_page_def ascii_def)
  have "elements ?p1 = elements ?p0 @
      [Overlay \<lparr>sid = next_sid ?p0, imageUrl = ascii ''a.png'', pageUrl = ascii ''p'',
                textarea_value = [], skip_checked = False\<rparr>]"
    using present_elements [OF h0] by simp
  then have h1: "getElementById ?p1 (ascii ''bananadb-dialog'') \<noteq> None"
    using first_match_snoc [OF inner_target_dialog] by (simp add: getElementById_def)
  have n0: "next_sid ?p0 = 0" by (simp add: fresh_page_def)
  show ?thesis
    using present_is_idempotent [of ?p1 "ascii ''b.png''" "ascii ''q''"] h1
      present_is_idempotent [of ?p0 "ascii ''a.png''" "ascii ''p''" "ascii ''b.png''" "ascii ''q''"
         ?hs
         "[ShowPromptDialog (ascii ''a.png'') (ascii ''p''), ShowPromptDialog (ascii ''b.png'') (ascii ''q'')]"] h0 n0
    by simp
qed

subsection \<open>Clicks inside the dialog box\<close>

lemma map_sid_update_overlay:
  "(\<And>d. sid (f d) = sid d) \<Longrightarrow> map sid (sessions (update_overlay n f es)) = map sid (sessions es)"
  by (induction es rule: sessions.induct) auto

text \<open>
  Claim C10, as amended. The overlay's own click listener does nothing unless the target
  of the click is the overlay element itself, in which case it removes the overlay. A
  click whose target is inside the dialog box and is neither the Cancel nor the Save
  button (the box, the textarea, the checkbox) leaves the dialog sessions of the document
  as they are.
\<close>

theorem inner_click_keeps_dialog:
  "(t \<noteq> OverlayBackground \<longrightarrow> overlay_listener d t p = p) \<and>
   find_overlay (sid d) (elements (overlay_listener d OverlayBackground p)) = None \<and>
   (t \<noteq> OverlayBackground \<and> t \<noteq> CancelBtn \<and> t \<noteq> SaveBtn \<longrightarrow>
      map sid (sessions (elements (click n t p))) = map sid (sessions (elements p)))"
proof -
  have a: "overlay_listener d t p = p" if "t \<noteq> OverlayBackground"
    using that by (simp add: overlay_listener_def)
  have b: "find_overlay (sid d) (elements (overlay_listener d OverlayBackground p)) = None"
    by (simp add: overlay_listener_def)
  have c: "map sid (sessions (elements (click n t p))) = map sid (sessions (elements p))"
    if "t \<noteq> OverlayBackground \<and> t \<noteq> CancelBtn \<and> t \<noteq> SaveBtn"
    using that
    by (cases t) (simp_all add: click_def overlay_listener_def map_sid_update_overlay split: option.splits)
  show ?thesis using a b c by blast
qed

theorem inner_click_keeps_dialog_witness:
  "overlay_listener \<lparr>sid = 0, imageUrl = [], pageUrl = [], textarea_value = [], skip_checked = False\<rparr>
       Textarea (showPromptInputDialog [] [] (fresh_page [])) =
     showPromptInputDialog [] [] (fresh_page []) \<and>
   map sid (sessions (elements (click 0 Checkbox (showPromptInputDialog [] [] (fresh_page []))))) = [0]"
proof -
  have "getElementById (fresh_page []) (ascii ''bananadb-dialog'') = None"
    by (simp add: getElementById_def fresh_page_def)
  from present_elements [OF this, of "[]" "[]"]
  have "map sid (sessions (elements (showPromptInputDialog [] [] (fresh_page [])))) = [0]"
    by (simp add: fresh_page_def)
  then show ?thesis
    using inner_click_keeps_dialog [of Textarea
        "\<lparr>sid = 0, imageUrl = [], pageUrl = [], textarea_value = [], skip_checked = False\<rparr>"
        "showPromptInputDialog [] [] (fresh_page [])" 0]
      inner_click_keeps_dialog [of Checkbox
        "\<lparr>sid = 0, imageUrl = [], pageUrl = [], textarea_value = [], skip_checked = False\<rparr>"
        "showPromptInputDialog [] [] (fresh_page [])" 0]
    by simp
qed

lemma opened_fresh:
  "showPromptInputDialog iu pu (fresh_page []) =
     \<lparr>elements = [Overlay \<lparr>sid = 0, imageUrl = iu, pageUrl = pu,
                             textarea_value = [], skip_checked = False\<rparr>],
       detached = [],
       click_listeners = [(Own 0 CancelBtn, CancelListener 0),
                          (Own 0 SaveBtn, SaveListener 0 (Own 0 Textarea))],
       overlay_listeners = [0], keydown_listeners = [0], outbox = [], next_sid = Suc 0\<rparr>"
  by (simp add: showPromptInputDialog_def getElementById_def fresh_page_def)

text \<open>
  The Cancel button is inside the dialog box and is not the overlay element; a click on
  it dismisses the dialog session.
\<close>

theorem cancel_click_dismisses:
  "CancelBtn \<noteq> OverlayBackground \<and>
   find_overlay 0 (elements (showPromptInputDialog [] [] (fresh_page []))) \<noteq> None \<and>
   find_overlay 0 (elements (click 0 CancelBtn (showPromptInputDialog [] [] (fresh_page [])))) = None"
  by (simp add: opened_fresh click_def overlay_listener_def cancel_listener_def remove_overlay_def
      fire_def listeners_on_def)

subsection \<open>Listeners left behind\<close>

text \<open>
  Claim C2 fails on the code. After a dialog is opened and dismissed with Cancel, with
  Save or with a click on the overlay, the document is without the overlay but the
  \<open>keydown\<close> listener of the session is still registered on \<open>document\<close>; a second
  open and dismiss adds a second one. Only the Escape path removes its listener.
\<close>

theorem dismissal_leaves_keydown_listener:
  "elements (run (fresh_page []) [ShowPromptDialog [] [], Click 0 CancelBtn]) = [] \<and>
   keydown_listeners (run (fresh_page []) [ShowPromptDialog [] [], Click 0 CancelBtn]) = [0] \<and>
   keydown_listeners (run (fresh_page []) [ShowPromptDialog [] [], Click 0 SaveBtn]) = [0] \<and>
   keydown_listeners (run (fresh_page []) [ShowPromptDialog [] [], Click 0 OverlayBackground]) = [0] \<and>
   keydown_listeners (run (fresh_page [])
     [ShowPromptDialog [] [], Click 0 CancelBtn, ShowPromptDialog [] [], Click 1 CancelBtn]) = [0, 1] \<and>
   keydown_listeners (run (fresh_page []) [ShowPromptDialog [] [], KeyDown (ascii ''Escape'')]) = []"
proof -
  let ?d0 = "\<lparr>sid = 0, imageUrl = [], pageUrl = [], textarea_value = [], skip_checked = False\<rparr>"
  let ?ls0 = "[(Own 0 CancelBtn, CancelListener 0), (Own 0 SaveBtn, SaveListener 0 (Own 0 Textarea))]"
  let ?p1 = "showPromptInputDialog [] [] (fresh_page [])"
  let ?c = "\<lparr>elements = [], detached = [?d0], click_listeners = ?ls0,
             overlay_listeners = [0], keydown_listeners = [0], outbox = [], next_sid = Suc 0\<rparr>"
  have cancel: "click 0 CancelBtn ?p1 = ?c"
    by (simp add: opened_fresh click_def overlay_listener_def cancel_listener_def
        remove_overlay_def fire_def listeners_on_def)
  have save: "keydown_listeners (click 0 SaveBtn ?p1) = [0]"
    by (simp add: opened_fresh click_def overlay_listener_def)
  have outside: "keydown_listeners (click 0 OverlayBackground ?p1) = [0]"
    by (simp add: opened_fresh click_def overlay_listener_def)
  have again: "keydown_listeners (showPromptInputDialog [] [] ?c) = [0, 1]"
    by (simp add: showPromptInputDialog_def getElementById_def)
  have "find_overlay 1 (elements (showPromptInputDialog [] [] ?c)) = None \<or>
      keydown_listeners (click 1 CancelBtn (showPromptInputDialog [] [] ?c)) =
        keydown_listeners (showPromptInputDialog [] [] ?c)"
    by (simp add: click_def overlay_listener_def split: option.splits)
  then have cancel2: "keydown_listeners (click 1 CancelBtn (showPromptInputDialog [] [] ?c)) = [0, 1]"
    using again by (auto simp: click_def)
  have esc: "keydown_listeners (keydown (ascii ''Escape'') ?p1) = []"
    by (simp add: opened_fresh keydown_def escHandler_def)
  show ?thesis
    using cancel save outside cancel2 esc by (simp add: run_def)
qed

subsection \<open>Pages on a host free of the inner identifiers\<close>

lemma bindings_Suc:
  "bindings (Suc k) = bindings k @
     [(Own k CancelBtn, CancelListener k), (Own k SaveBtn, SaveListener k (Own k Textarea))]"
  by (simp add: bindings_def)

lemma bindings_on_save:
  "map snd (filter (\<lambda>x. fst x = Own n SaveBtn) (bindings k)) =
     (if n < k then [SaveListener n (Own n Textarea)] else [])"
  by (induction k) (auto simp: bindings_Suc, simp add: bindings_def)

lemma bindings_on_cancel:
  "map snd (filter (\<lambda>x. fst x = Own n CancelBtn) (bindings k)) =
     (if n < k then [CancelListener n] else [])"
  by (induction k) (auto simp: bindings_Suc, simp add: bindings_def)

lemma bindings_on_host: "map snd (filter (\<lambda>x. fst x = HostElem h) (bindings k)) = []"
  by (induction k) (auto simp: bindings_Suc, simp add: bindings_def)

lemma first_match_inner:
  assumes "inner_ids_free (hosts es)" and "i \<in> set inner_ids" and "inner_target i = Some t"
  shows "first_match i es = (case sessions es of [] \<Rightarrow> None | d # ds \<Rightarrow> Some (Own (sid d) t))"
  using assms by (induction es rule: sessions.induct) (auto simp: inner_ids_free_def)

lemma sids_update_overlay:
  "(\<And>d. sid (f d) = sid d) \<Longrightarrow>
   sid ` set (sessions (update_overlay n f es)) = sid ` set (sessions es)"
  by (induction es rule: sessions.induct) auto

lemma target_listener_fields [simp]:
  "next_sid (target_listener n t p) = next_sid p"
  "click_listeners (target_listener n t p) = click_listeners p"
  "overlay_listeners (target_listener n t p) = overlay_listeners p"
  "keydown_listeners (target_listener n t p) = keydown_listeners p"
  "hosts (elements (target_listener n t p)) = hosts (elements p)"
  by (cases t; simp)+

lemma overlay_listener_fields [simp]:
  "next_sid (overlay_listener d t p) = next_sid p"
  "outbox (overlay_listener d t p) = outbox p"
  "click_listeners (overlay_listener d t p) = click_listeners p"
  "overlay_listeners (overlay_listener d t p) = overlay_listeners p"
  "keydown_listeners (overlay_listener d t p) = keydown_listeners p"
  "hosts (elements (overlay_listener d t p)) = hosts (elements p)"
  by (simp_all add: overlay_listener_def)

lemma click_fields [simp]:
  "next_sid (click n t p) = next_sid p"
  "click_listeners (click n t p) = click_listeners p"
  "overlay_listeners (click n t p) = overlay_listeners p"
  "keydown_listeners (click n t p) = keydown_listeners p"
  "hosts (elements (click n t p)) = hosts (elements p)"
  by (simp_all add: click_def split: option.splits)

lemma click_host_fields [simp]:
  "next_sid (click_host k p) = next_sid p"
  "click_listeners (click_host k p) = click_listeners p"
  "overlay_listeners (click_host k p) = overlay_listeners p"
  "keydown_listeners (click_host k p) = keydown_listeners p"
  "hosts (elements (click_host k p)) = hosts (elements p)"
  by (simp_all add: click_host_def split: option.splits)

lemma keydown_fields [simp]:
  "outbox (keydown k p) = outbox p"
  "next_sid (keydown k p) = next_sid p"
  "click_listeners (keydown k p) = click_listeners p"
  "overlay_listeners (keydown k p) = overlay_listeners p"
  "hosts (elements (keydown k p)) = hosts (elements p)"
  by (simp_all add: keydown_def)

lemma input_fields [simp]:
  "outbox (input n s p) = outbox p"
  "next_sid (input n s p) = next_sid p"
  "click_listeners (input n s p) = click_listeners p"
  "overlay_listeners (input n s p) = overlay_listeners p"
  "keydown_listeners (input n s p) = keydown_listeners p"
  "hosts (elements (input n s p)) = hosts (elements p)"
  by (simp_all add: input_def)

lemma target_listener_sids:
  "sid ` set (sessions (elements (target_listener n t p))) \<subseteq> sid ` set (sessions (elements p))"
  using fire_subset by (cases t) (auto simp: sids_update_overlay)

lemma click_sids:
  "sid ` set (sessions (elements (click n t p))) \<subseteq> sid ` set (sessions (elements p))"
proof (cases "find_overlay n (elements p)")
  case None
  then show ?thesis by (simp add: click_def)
next
  case (Some d)
  have "sid ` set (sessions (elements (overlay_listener d t q))) \<subseteq> sid ` set (sessions (elements q))" for q
    using remove_overlay_subset [of "sid d" q] by (auto simp: overlay_listener_def)
  then have "sid ` set (sessions (elements (overlay_listener d t (target_listener n t p))))
      \<subseteq> sid ` set (sessions (elements (target_listener n t p)))" .
  then have "sid ` set (sessions (elements (overlay_listener d t (target_listener n t p))))
      \<subseteq> sid ` set (sessions (elements p))"
    using target_listener_sids [of n t p] by (rule subset_trans)
  then show ?thesis using Some target_listener_sids [of n t p] by (simp add: click_def)
qed

lemma click_host_sids:
  "sid ` set (sessions (elements (click_host k p))) \<subseteq> sid ` set (sessions (elements p))"
  using fire_subset [of "HostElem k" p] by (auto simp: click_host_def split: option.splits)

lemma keydown_sids:
  "sid ` set (sessions (elements (keydown k p))) \<subseteq> sid ` set (sessions (elements p))"
  using fold_esc_elements [of k "keydown_listeners p" p] by (auto simp: keydown_def)

lemma step_sids:
  "(sid ` set (sessions (elements (step p e))) \<subseteq> sid ` set (sessions (elements p)) \<and>
      next_sid (step p e) = next_sid p) \<or>
   (sid ` set (sessions (elements (step p e))) \<subseteq> insert (next_sid p) (sid ` set (sessions (elements p))) \<and>
      next_sid (step p e) = Suc (next_sid p))"
proof (cases e)
  case (ShowPromptDialog iu pu)
  show ?thesis
  proof (cases "getElementById p (ascii ''bananadb-dialog'')")
    case None
    then show ?thesis using ShowPromptDialog present_elements [OF None, of iu pu]
      by (auto simp: sessions_append)
  next
    case (Some r)
    then show ?thesis using ShowPromptDialog by (simp add: showPromptInputDialog_def)
  qed
next
  case (Click n t)
  then show ?thesis using click_sids [of n t p] by simp
next
  case (ClickHost k)
  then show ?thesis using click_host_sids [of k p] by simp
next
  case (Input n s)
  then show ?thesis by (simp add: input_def sids_update_overlay)
next
  case (KeyDown k)
  then show ?thesis using keydown_sids [of k p] by simp
qed

lemma wf_page_iff: "wf_page p \<longleftrightarrow> (\<forall>n \<in> sid ` set (sessions (elements p)). n < next_sid p)"
  by (auto simp: wf_page_def list_all_iff)

lemma step_wf: "wf_page p \<Longrightarrow> wf_page (step p e)"
  unfolding wf_page_iff using step_sids [of p e] by (auto simp: less_Suc_eq)

lemma step_detached:
  assumes "wf_page p" and "find_overlay n (elements p) = None" and "n < next_sid p"
  shows "find_overlay n (elements (step p e)) = None \<and> n < next_sid (step p e)"
  using assms step_sids [of p e] unfolding find_overlay_None by auto

lemma present_opens:
  assumes inv: "page_inv p" and none: "getElementById p (ascii ''bananadb-dialog'') = None"
  shows "showPromptInputDialog iu pu p =
     p\<lparr>elements := elements p @
          [Overlay \<lparr>sid = next_sid p, imageUrl = iu, pageUrl = pu,
                    textarea_value = [], skip_checked = False\<rparr>],
       next_sid := Suc (next_sid p),
       click_listeners := bindings (Suc (next_sid p)),
       overlay_listeners := [0..<Suc (next_sid p)],
       keydown_listeners := keydown_listeners p @ [next_sid p]\<rparr>"
proof -
  let ?d = "\<lparr>sid = next_sid p, imageUrl = iu, pageUrl = pu, textarea_value = [], skip_checked = False\<rparr>"
  let ?es = "elements p @ [Overlay ?d]"
  have old: "sessions (elements p) = []"
    using none by (simp add: getElementById_def no_dialog_no_sessions)
  have free: "inner_ids_free (hosts ?es)"
    using inv by (simp add: page_inv_def hosts_append)
  have s: "sessions ?es = [?d]" using old by (simp add: sessions_append)
  have ta: "first_match (ascii ''bananadb-prompt-input'') ?es = Some (Own (next_sid p) Textarea)"
    using first_match_inner [OF free _ inner_target_prompt] s by (simp add: inner_ids_def)
  have cb: "first_match (ascii ''bananadb-cancel-btn'') ?es = Some (Own (next_sid p) CancelBtn)"
    using first_match_inner [OF free _ inner_target_cancel] s by (simp add: inner_ids_def)
  have sb: "first_match (ascii ''bananadb-save-btn'') ?es = Some (Own (next_sid p) SaveBtn)"
    using first_match_inner [OF free _ inner_target_save] s by (simp add: inner_ids_def)
  have regs: "click_listeners p = bindings (next_sid p)" "overlay_listeners p = [0..<next_sid p]"
    using inv by (simp_all add: page_inv_def)
  show ?thesis
    using none ta cb sb regs
    by (simp add: showPromptInputDialog_def getElementById_def bindings_Suc Let_def)
qed

lemma page_inv_fresh: "inner_ids_free hs \<Longrightarrow> page_inv (fresh_page hs)"
  by (simp add: page_inv_def fresh_page_def wf_page_def bindings_def)

lemma step_inv:
  assumes inv: "page_inv p"
  shows "page_inv (step p e)"
proof -
  have "length (sessions (elements p)) \<le> 1"
    using inv unfolding page_inv_def by blast
  then have len: "length (sessions (elements (step p e))) \<le> 1"
    by (rule step_at_most_one)
  have "wf_page p"
    using inv unfolding page_inv_def by blast
  then have wf: "wf_page (step p e)"
    by (rule step_wf)
  have rest: "inner_ids_free (hosts (elements (step p e))) \<and>
      click_listeners (step p e) = bindings (next_sid (step p e)) \<and>
      overlay_listeners (step p e) = [0..<next_sid (step p e)]"
  proof (cases e)
    case (ShowPromptDialog iu pu)
    show ?thesis
    proof (cases "getElementById p (ascii ''bananadb-dialog'')")
      case None
      show ?thesis using ShowPromptDialog inv present_opens [OF inv None, of iu pu]
        by (simp add: page_inv_def hosts_append)
    next
      case (Some r)
      then show ?thesis using ShowPromptDialog inv
        by (simp add: showPromptInputDialog_def page_inv_def)
    qed
  next
    case (Click n t)
    then show ?thesis using inv by (simp add: page_inv_def)
  next
    case (ClickHost k)
    then show ?thesis using inv by (simp add: page_inv_def)
  next
    case (Input n s)
    then show ?thesis using inv by (simp add: page_inv_def)
  next
    case (KeyDown k)
    then show ?thesis using inv by (simp add: page_inv_def)
  qed
  show ?thesis using len wf rest unfolding page_inv_def by blast
qed

lemma run_inv: "page_inv p \<Longrightarrow> page_inv (run p es)"
  unfolding run_def by (induction es arbitrary: p) (simp_all add: step_inv)

lemma reachable_inv: "inner_ids_free hs \<Longrightarrow> page_inv (run (fresh_page hs) es)"
  by (simp add: run_inv page_inv_fresh)

subsection \<open>The save message\<close>

lemma single_session:
  assumes "page_inv p" and "find_overlay n (elements p) = Some d"
  shows "sessions (elements p) = [d] \<and> sid d = n \<and> n < next_sid p"
proof -
  have m: "sid d = n" "d \<in> set (sessions (elements p))"
    using find_overlay_Some [OF assms(2)] by simp_all
  have "length (sessions (elements p)) \<le> 1"
    using assms(1) unfolding page_inv_def by blast
  with m(2) have "sessions (elements p) = [d]"
    by (cases "sessions (elements p)") auto
  moreover have "n < next_sid p"
    using assms(1) m unfolding page_inv_def wf_page_iff by blast
  ultimately show ?thesis using m(1) by simp
qed

lemma save_click_effect:
  assumes inv: "page_inv p" and att: "find_overlay n (elements p) = Some d"
  shows "click n SaveBtn p =
     remove_overlay n
       (p\<lparr>outbox := outbox p @
            [\<lparr>action = ascii ''saveImage'', msg_imageUrl = imageUrl d, msg_pageUrl = pageUrl d,
              promptText = trim (textarea_value d), skipAI = Some (skip_checked d)\<rparr>]\<rparr>)"
proof -
  have one: "sessions (elements p) = [d]" "sid d = n" "n < next_sid p"
    using single_session [OF inv att] by simp_all
  have regs: "click_listeners p = bindings (next_sid p)" "overlay_listeners p = [0..<next_sid p]"
    "inner_ids_free (hosts (elements p))"
    using inv by (simp_all add: page_inv_def)
  have ls: "listeners_on (Own n SaveBtn) p = [SaveListener n (Own n Textarea)]"
    using regs(1) one(3) by (simp add: listeners_on_def bindings_on_save)
  have look: "lookup_dialog n p = Some d"
    using att by (simp add: lookup_dialog_def)
  have cb: "getElementById p (ascii ''bananadb-skip-ai-checkbox'') = Some (Own n Checkbox)"
    using first_match_inner [OF regs(3) _ inner_target_checkbox] one
    by (simp add: getElementById_def inner_ids_def)
  have sl: "save_listener n (Own n Textarea) p =
     remove_overlay n
       (p\<lparr>outbox := outbox p @
            [\<lparr>action = ascii ''saveImage'', msg_imageUrl = imageUrl d, msg_pageUrl = pageUrl d,
              promptText = trim (textarea_value d), skipAI = Some (skip_checked d)\<rparr>]\<rparr>)"
    using look cb by (simp add: save_listener_def)
  have "n \<in> set (overlay_listeners p)" using regs(2) one(3) by simp
  then show ?thesis
    using att ls sl by (simp add: click_def fire_def overlay_listener_def)
qed

lemma save_click_outbox:
  assumes "page_inv p" and "find_overlay n (elements p) = Some d"
  shows "outbox (click n SaveBtn p) = outbox p @
     [\<lparr>action = ascii ''saveImage'', msg_imageUrl = imageUrl d, msg_pageUrl = pageUrl d,
       promptText = trim (textarea_value d), skipAI = Some (skip_checked d)\<rparr>]"
  using save_click_effect [OF assms] by simp

lemma save_click_detaches:
  assumes "page_inv p" and "find_overlay n (elements p) = Some d"
  shows "find_overlay n (elements (click n SaveBtn p)) = None"
  using save_click_effect [OF assms] by simp

lemma cancel_fire_outbox:
  assumes "page_inv p"
  shows "outbox (fire (Own n CancelBtn) p) = outbox p"
proof -
  have "click_listeners p = bindings (next_sid p)"
    using assms by (simp add: page_inv_def)
  then have "listeners_on (Own n CancelBtn) p = (if n < next_sid p then [CancelListener n] else [])"
    by (simp add: listeners_on_def bindings_on_cancel)
  then show ?thesis by (simp add: fire_def cancel_listener_def)
qed

lemma other_click_outbox:
  assumes "page_inv p" and "t \<noteq> SaveBtn"
  shows "outbox (click n t p) = outbox p"
  using assms cancel_fire_outbox [OF assms(1), of n]
  by (cases t) (simp_all add: click_def split: option.splits)

lemma click_host_idle:
  assumes "page_inv p"
  shows "click_host k p = p"
proof -
  have "click_listeners p = bindings (next_sid p)"
    using assms by (simp add: page_inv_def)
  then have "listeners_on (HostElem k) p = []"
    by (simp add: listeners_on_def bindings_on_host)
  then show ?thesis by (simp add: click_host_def fire_def split: option.splits)
qed

lemma present_outbox [simp]: "outbox (showPromptInputDialog iu pu p) = outbox p"
  by (simp add: showPromptInputDialog_def Let_def split: option.splits)

lemma other_step_outbox:
  assumes "page_inv p" and "\<forall>n. e \<noteq> Click n SaveBtn"
  shows "outbox (step p e) = outbox p"
proof (cases e)
  case (Click n t)
  then have "t \<noteq> SaveBtn" using assms(2) by auto
  then show ?thesis using Click other_click_outbox [OF assms(1)] by simp
next
  case (ClickHost k)
  then show ?thesis using click_host_idle [OF assms(1)] by simp
qed simp_all

lemma sent_by_detached:
  "wf_page p \<Longrightarrow> find_overlay n (elements p) = None \<Longrightarrow> n < next_sid p \<Longrightarrow> sent_by n p es = []"
proof (induction es arbitrary: p)
  case Nil
  show ?case by simp
next
  case (Cons e es)
  have noop: "e = Click n SaveBtn \<Longrightarrow> step p e = p"
    using Cons.prems(2) by (simp add: click_def)
  have "sent_by n (step p e) es = []"
    using Cons.IH [of "step p e"] step_wf [OF Cons.prems(1)] step_detached [OF Cons.prems] by simp
  then show ?case using noop by auto
qed

lemma sent_by_at_most_one: "page_inv p \<Longrightarrow> length (sent_by n p es) \<le> 1"
proof (induction es arbitrary: p)
  case Nil
  show ?case by simp
next
  case (Cons e es)
  have wf: "wf_page p" using Cons.prems unfolding page_inv_def by blast
  show ?case
  proof (cases "e = Click n SaveBtn")
    case False
    then show ?thesis using Cons.IH [OF step_inv [OF Cons.prems]] by simp
  next
    case True
    show ?thesis
    proof (cases "find_overlay n (elements p)")
      case None
      then have "step p e = p" using True by (simp add: click_def)
      then show ?thesis using True Cons.IH [OF Cons.prems] by simp
    next
      case (Some d)
      have lt: "n < next_sid p"
        using single_session [OF Cons.prems Some] by simp
      have "sent_by n (click n SaveBtn p) es = []"
        using sent_by_detached [of "click n SaveBtn p" n es] step_wf [OF wf, of "Click n SaveBtn"]
          save_click_detaches [OF Cons.prems Some] lt by simp
      then show ?thesis using True save_click_outbox [OF Cons.prems Some] by simp
    qed
  qed
qed



subsection \<open>The prompt text\<close>

lemma find_overlay_update:
  "(\<And>x. sid (f x) = sid x) \<Longrightarrow> find_overlay n es = Some d \<Longrightarrow>
   find_overlay n (update_overlay n f es) = Some (f d)"
  by (induction es rule: sessions.induct) (auto split: if_splits)

lemma find_overlay_snoc:
  "find_overlay m (xs @ [Overlay d]) =
     (case find_overlay m xs of None \<Rightarrow> (if sid d = m then Some d else None) | Some x \<Rightarrow> Some x)"
  by (induction xs rule: sessions.induct) auto

lemma trim_suffix:
  "dropWhile is_js_whitespace v =
     trim v @ rev (takeWhile is_js_whitespace (rev (dropWhile is_js_whitespace v)))"
proof -
  let ?w = "dropWhile is_js_whitespace v"
  have "rev (rev ?w) = ?w" by (rule rev_rev_ident)
  moreover have "rev (takeWhile is_js_whitespace (rev ?w) @ dropWhile is_js_whitespace (rev ?w)) =
      rev (dropWhile is_js_whitespace (rev ?w)) @ rev (takeWhile is_js_whitespace (rev ?w))"
    by (rule rev_append)
  moreover have "takeWhile is_js_whitespace (rev ?w) @ dropWhile is_js_whitespace (rev ?w) = rev ?w"
    by (rule takeWhile_dropWhile_id)
  ultimately show ?thesis unfolding trim_def by (simp only:)
qed

lemma trim_decomposition:
  "\<exists>pre suf. v = pre @ trim v @ suf \<and> list_all is_js_whitespace pre \<and> list_all is_js_whitespace suf"
proof -
  let ?w = "dropWhile is_js_whitespace v"
  have w: "?w = trim v @ rev (takeWhile is_js_whitespace (rev ?w))"
    by (rule trim_suffix)
  have "v = takeWhile is_js_whitespace v @ ?w" by simp
  with w have "v = takeWhile is_js_whitespace v @ trim v @ rev (takeWhile is_js_whitespace (rev ?w))"
    by simp
  moreover have "list_all is_js_whitespace (takeWhile is_js_whitespace v)"
    by (simp add: list_all_iff) (meson set_takeWhileD)
  moreover have "list_all is_js_whitespace (rev (takeWhile is_js_whitespace (rev ?w)))"
    by (simp add: list_all_iff) (meson set_takeWhileD)
  ultimately show ?thesis by blast
qed

lemma trim_ends:
  assumes "trim v \<noteq> []"
  shows "\<not> is_js_whitespace (hd (trim v)) \<and> \<not> is_js_whitespace (last (trim v))"
proof -
  let ?w = "dropWhile is_js_whitespace v"
  let ?u = "dropWhile is_js_whitespace (rev ?w)"
  have u: "?u \<noteq> []" using assms by (simp add: trim_def)
  then have "\<not> is_js_whitespace (hd ?u)" by (rule hd_dropWhile)
  then have l: "\<not> is_js_whitespace (last (trim v))"
    using u by (simp add: trim_def last_rev)
  have w: "?w = trim v @ rev (takeWhile is_js_whitespace (rev ?w))"
    by (rule trim_suffix)
  with assms have "?w \<noteq> []" by (metis Nil_is_append_conv)
  then have "\<not> is_js_whitespace (hd ?w)" by (rule hd_dropWhile)
  moreover have "hd ?w = hd (trim v)"
    using w assms by (metis hd_append2)
  ultimately show ?thesis using l by simp
qed



section \<open>Properties of the Capture Coordinator\<close>

subsection \<open>A click without an image URL\<close>

text \<open>
  Claim C4. For a click on the menu item \<open>saveToBananaDB\<close> whose \<open>srcUrl\<close> is
  absent, the coordinator adds one notification, with the error title and the text that
  the image URL cannot be obtained, and does nothing else: no script injection, no
  message to the tab, no HTTP call.
\<close>

theorem missing_image_url_only_notifies:
  assumes "menuItemId info = ascii ''saveToBananaDB''" and "srcUrl info = None"
  shows "onClicked info tb injected s =
           s\<lparr>notifications := notifications s @
                [\<lparr>title = error_title, note_message = no_image_url_text\<rparr>]\<rparr> \<and>
         injections (onClicked info tb injected s) = injections s \<and>
         tab_messages (onClicked info tb injected s) = tab_messages s \<and>
         http_calls (onClicked info tb injected s) = http_calls s"
  using assms by (simp add: onClicked_def showNotification_def)

theorem missing_image_url_only_notifies_witness:
  "onClicked \<lparr>menuItemId = ascii ''saveToBananaDB'', srcUrl = None\<rparr>
       (Some \<lparr>tab_id = 7, tab_url = Some (ascii ''https://example.org/'')\<rparr>) None idle =
     \<lparr>notifications = [\<lparr>title = error_title, note_message = no_image_url_text\<rparr>],
       injections = [], tab_messages = [], http_calls = []\<rparr>"
  using missing_image_url_only_notifies
    [of "\<lparr>menuItemId = ascii ''saveToBananaDB'', srcUrl = None\<rparr>"
        "Some \<lparr>tab_id = 7, tab_url = Some (ascii ''https://example.org/'')\<rparr>" None idle]
  by (simp add: idle_def)

subsection \<open>The success notification\<close>

lemma handleSaveImage_success:
  "try_block big fr = Inr t \<Longrightarrow>
   \<exists>s'. handleSaveImage big iu pu pt skip fr s = Inr s' \<and>
        notifications s' = notifications s @ [\<lparr>title = success_title, note_message = t\<rparr>]"
  by (simp add: handleSaveImage_def showNotification_def)

lemma handleSaveImage_failure:
  "try_block big fr = Inl e \<Longrightarrow>
   \<exists>s'. handleSaveImage big iu pu pt skip fr s = Inr s' \<and>
        notifications s' = notifications s @
          [\<lparr>title = failure_title,
            note_message = (if message e = [] then server_unreachable_text else message e)\<rparr>]"
  by (simp add: handleSaveImage_def showNotification_def)

text \<open>
  Claim C5. When the endpoint answers with a 2xx status and a body that parses to an
  object whose \<open>data\<close> is an object with an \<open>image_id\<close>, the coordinator adds exactly
  one notification; it has the success title, and its message is the fixed text, the
  identifier as \<open>ToString\<close> prints it, and a closing bracket: the message contains the
  identifier. An identifier that is a string is printed as it is, one that is an integer
  up to \<open>2^53 - 1\<close> in magnitude with its decimal digits; for a larger one the
  message has the text the engine prints for it.
\<close>

theorem success_notification_names_identifier:
  assumes "response_ok r"
    and "body_json r = Inr (JObj props)"
    and "map_of props (ascii ''data'') = Some (JObj rcd)"
    and "map_of rcd (ascii ''image_id'') = Some ident"
    and "to_string big ident = Inr t"
  shows "(\<exists>s'. handleSaveImage big iu pu pt skip (Responded r) s = Inr s' \<and>
           notifications s' = notifications s @
             [\<lparr>title = success_title, note_message = added_text @ t @ ascii '')''\<rparr>] \<and>
           sublist t (note_message (last (notifications s')))) \<and>
         (ident = JStr x \<longrightarrow> t = x) \<and>
         (ident = JNum i \<and> \<bar>i\<bar> \<le> 9007199254740991 \<longrightarrow> t = exact_digits i)"
proof -
  have "try_block big (Responded r) = Inr (added_text @ t @ ascii '')'')"
    using assms by (simp add: try_block_def success_text_def)
  from handleSaveImage_success [OF this, of iu pu pt skip s]
  obtain s' where s': "handleSaveImage big iu pu pt skip (Responded r) s = Inr s'"
    "notifications s' = notifications s @
       [\<lparr>title = success_title, note_message = added_text @ t @ ascii '')''\<rparr>]"
    by blast
  then have "sublist t (note_message (last (notifications s')))" by simp
  with s' have a: "\<exists>s'. handleSaveImage big iu pu pt skip (Responded r) s = Inr s' \<and>
           notifications s' = notifications s @
             [\<lparr>title = success_title, note_message = added_text @ t @ ascii '')''\<rparr>] \<and>
           sublist t (note_message (last (notifications s')))"
    by blast
  have b: "t = x" if "ident = JStr x"
    using that assms(5) by simp
  have c: "t = exact_digits i" if "ident = JNum i \<and> \<bar>i\<bar> \<le> 9007199254740991"
    using that assms(5) by (auto simp: int_to_string_def)
  show ?thesis using a b c by blast
qed

theorem success_notification_names_identifier_witness:
  "\<exists>s'. handleSaveImage exact_digits (ascii ''a.png'') (ascii ''p'') [] (Some False)
           (Responded \<lparr>status = 200, body_json =
              Inr (JObj [(ascii ''data'', JObj [(ascii ''image_id'', JNum 42)])])\<rparr>) idle = Inr s' \<and>
         notifications s' =
           [\<lparr>title = success_title, note_message = added_text @ ascii ''42'' @ ascii '')''\<rparr>] \<and>
         sublist (ascii ''42'') (note_message (last (notifications s')))"
proof -
  have d: "to_string exact_digits (JNum 42) = Inr (ascii ''42'')"
    by (simp add: int_to_string_def exact_digits_def decimal.simps ascii_def)
  show ?thesis
    using success_notification_names_identifier
      [of "\<lparr>status = 200, body_json =
              Inr (JObj [(ascii ''data'', JObj [(ascii ''image_id'', JNum 42)])])\<rparr>"
          "[(ascii ''data'', JObj [(ascii ''image_id'', JNum 42)])]"
          "[(ascii ''image_id'', JNum 42)]" "JNum 42" exact_digits "ascii ''42''"
          "ascii ''a.png''" "ascii ''p''" "[]" "Some False" idle] d
    by (simp add: response_ok_def idle_def)
qed

subsection \<open>A network failure\<close>

text \<open>
  Claim C7, as amended. When \<open>fetch\<close> rejects, \<open>handleSaveImage\<close> completes normally
  and adds exactly one notification, with the failure title; its message is the message
  of the rejection's error, and the generic text about the unreachable server only when
  that message is empty.
\<close>

theorem network_failure_notification:
  "\<exists>s'. handleSaveImage big iu pu pt skip (Rejected e) s = Inr s' \<and>
         notifications s' = notifications s @
           [\<lparr>title = failure_title,
             note_message = (if message e = [] then server_unreachable_text else message e)\<rparr>]"
  by (rule handleSaveImage_failure) (simp add: try_block_def)

theorem network_failure_notification_witness:
  "\<exists>s'. handleSaveImage exact_digits (ascii ''a.png'') (ascii ''p'') [] (Some False)
           (Rejected (Error [])) idle = Inr s' \<and>
         notifications s' = [\<lparr>title = failure_title, note_message = server_unreachable_text\<rparr>]"
  using network_failure_notification
    [of exact_digits "ascii ''a.png''" "ascii ''p''" "[]" "Some False" "Error []" idle]
  by (simp add: idle_def)

text \<open>
  When the server refuses the connection, Chrome's \<open>fetch\<close> rejects with a
  \<open>TypeError\<close> whose message is \<open>Failed to fetch\<close>; the notification shows that
  message, not the generic text.
\<close>

theorem failed_to_fetch_is_shown:
  "map_sum id notifications
     (handleSaveImage exact_digits (ascii ''a.png'') (ascii ''p'') [] (Some False)
        (Rejected (Error (ascii ''Failed to fetch''))) idle) =
     Inr [\<lparr>title = failure_title, note_message = ascii ''Failed to fetch''\<rparr>] \<and>
   ascii ''Failed to fetch'' \<noteq> server_unreachable_text"
  by (simp add: handleSaveImage_def try_block_def showNotification_def idle_def
      server_unreachable_text_def ascii_def)

subsection \<open>A response that is not ok\<close>

text \<open>
  Claim C6 fails on the code. For a response that is not ok the code shows the
  \<open>detail\<close> of the body, and \<open>HTTP\<close> with the status when the body does not parse
  or is an object without a \<open>detail\<close>. For a body that is the JSON text \<open>null\<close>
  (status 500) it shows neither: the body parses and holds no \<open>detail\<close>, reading
  \<open>errorData.detail\<close> throws, and the notification has the text of that
  \<open>TypeError\<close>, in which the status does not occur.
\<close>

theorem null_body_hides_status:
  "map_sum id notifications
     (handleSaveImage big (ascii ''a.png'') (ascii ''p'') [] (Some False)
        (Responded \<lparr>status = 400, body_json =
           Inr (JObj [(ascii ''detail'', JStr (ascii ''bad url''))])\<rparr>) idle) =
     Inr [\<lparr>title = failure_title, note_message = ascii ''bad url''\<rparr>] \<and>
   map_sum id notifications
     (handleSaveImage big (ascii ''a.png'') (ascii ''p'') [] (Some False)
        (Responded \<lparr>status = 502, body_json = Inl (Error (ascii ''Unexpected token''))\<rparr>) idle) =
     Inr [\<lparr>title = failure_title, note_message = ascii ''HTTP 502''\<rparr>] \<and>
   map_sum id notifications
     (handleSaveImage big (ascii ''a.png'') (ascii ''p'') [] (Some False)
        (Responded \<lparr>status = 500, body_json = Inr (JObj [])\<rparr>) idle) =
     Inr [\<lparr>title = failure_title, note_message = ascii ''HTTP 500''\<rparr>] \<and>
   map_sum id notifications
     (handleSaveImage big (ascii ''a.png'') (ascii ''p'') [] (Some False)
        (Responded \<lparr>status = 500, body_json = Inr JNull\<rparr>) idle) =
     Inr [\<lparr>title = failure_title, note_message = message (read_error ''null'' ''detail'')\<rparr>] \<and>
   \<not> sublist (ascii ''500'') (message (read_error ''null'' ''detail''))"
proof -
  have "0x35 \<in> set (ascii ''500'')" by (simp add: ascii_def)
  moreover have "0x35 \<notin> set (message (read_error ''null'' ''detail''))"
    by (simp add: read_error_def ascii_def)
  ultimately have a: "\<not> sublist (ascii ''500'') (message (read_error ''null'' ''detail''))"
    using set_mono_sublist by blast
  have b: "message (read_error ''null'' ''detail'') \<noteq> []"
    by (simp add: read_error_def ascii_def)
  have c: "decimal 502 = ascii ''502''" "decimal 500 = ascii ''500''"
    by (simp_all add: decimal.simps ascii_def)
  have d: "ascii ''HTTP '' @ ascii ''502'' = ascii ''HTTP 502''"
    "ascii ''HTTP '' @ ascii ''500'' = ascii ''HTTP 500''"
    "ascii ''HTTP 502'' \<noteq> []" "ascii ''HTTP 500'' \<noteq> []" "ascii ''bad url'' \<noteq> []"
    by (simp_all add: ascii_def)
  show ?thesis
    using a b c d
    by (simp add: handleSaveImage_def try_block_def response_error_def response_ok_def
        showNotification_def idle_def)
qed

subsection \<open>One notification for every save\<close>

lemma titles_differ: "success_title \<noteq> failure_title"
  by (simp add: success_title_def failure_title_def)

lemma try_block_succeeds_iff:
  "(\<exists>t. try_block big fr = Inr t) \<longleftrightarrow>
   (\<exists>r result d i t. fr = Responded r \<and> response_ok r \<and> body_json r = Inr result \<and>
      get_prop (Some result) ''data'' = Inr d \<and> get_prop d ''image_id'' = Inr i \<and>
      to_string_opt big i = Inr t)"
  by (auto simp: try_block_def success_text_def split: fetch_result.splits sum.splits if_splits)

text \<open>
  Claim C9, as amended. \<open>handleSaveImage\<close> always completes normally and adds exactly
  one notification, with the success title or with the failure title. It has the success
  title exactly when \<open>fetch\<close> gave a response with a 2xx status whose body parses to a
  value from which \<open>result.data.image_id\<close> can be read (\<open>result\<close> and
  \<open>result.data\<close> are neither \<open>null\<close> nor \<open>undefined\<close>) and printed.
\<close>

theorem save_always_notifies_once:
  "\<exists>s' n. handleSaveImage big iu pu pt skip fr s = Inr s' \<and>
      notifications s' = notifications s @ [n] \<and>
      (title n = success_title \<or> title n = failure_title) \<and>
      (title n = success_title \<longleftrightarrow>
         (\<exists>r result d i t. fr = Responded r \<and> response_ok r \<and> body_json r = Inr result \<and>
            get_prop (Some result) ''data'' = Inr d \<and> get_prop d ''image_id'' = Inr i \<and>
            to_string_opt big i = Inr t))"
proof (cases "try_block big fr")
  case (Inr t)
  then have "\<exists>t. try_block big fr = Inr t" by blast
  then have ok: "\<exists>r result d i t. fr = Responded r \<and> response_ok r \<and> body_json r = Inr result \<and>
      get_prop (Some result) ''data'' = Inr d \<and> get_prop d ''image_id'' = Inr i \<and>
      to_string_opt big i = Inr t"
    by (simp only: try_block_succeeds_iff)
  from handleSaveImage_success [OF Inr, of iu pu pt skip s]
  obtain s' where "handleSaveImage big iu pu pt skip fr s = Inr s'"
    "notifications s' = notifications s @ [\<lparr>title = success_title, note_message = t\<rparr>]"
    by blast
  with ok show ?thesis by (intro exI [of _ s'] exI [of _ "\<lparr>title = success_title, note_message = t\<rparr>"]) simp
next
  case (Inl e)
  then have "\<not> (\<exists>t. try_block big fr = Inr t)" by simp
  then have no: "\<not> (\<exists>r result d i t. fr = Responded r \<and> response_ok r \<and> body_json r = Inr result \<and>
      get_prop (Some result) ''data'' = Inr d \<and> get_prop d ''image_id'' = Inr i \<and>
      to_string_opt big i = Inr t)"
    using try_block_succeeds_iff [of big fr] by blast
  from handleSaveImage_failure [OF Inl, of iu pu pt skip s]
  obtain s' where "handleSaveImage big iu pu pt skip fr s = Inr s'"
    "notifications s' = notifications s @
       [\<lparr>title = failure_title,
         note_message = (if message e = [] then server_unreachable_text else message e)\<rparr>]"
    by blast
  with no titles_differ show ?thesis
    by (intro exI [of _ s'] exI [of _ "\<lparr>title = failure_title,
         note_message = (if message e = [] then server_unreachable_text else message e)\<rparr>"]) simp
qed

theorem save_always_notifies_once_witness:
  "\<exists>s' n. handleSaveImage exact_digits (ascii ''a.png'') (ascii ''p'') [] (Some False)
            (Responded \<lparr>status = 201, body_json =
               Inr (JObj [(ascii ''data'', JObj [(ascii ''image_id'', JNum 7)])])\<rparr>) idle = Inr s' \<and>
      notifications s' = [n] \<and> title n = success_title"
proof -
  let ?r = "\<lparr>status = 201, body_json =
               Inr (JObj [(ascii ''data'', JObj [(ascii ''image_id'', JNum 7)])])\<rparr>"
  have "\<exists>r result d i t. Responded ?r = Responded r \<and> response_ok r \<and> body_json r = Inr result \<and>
      get_prop (Some result) ''data'' = Inr d \<and> get_prop d ''image_id'' = Inr i \<and>
      to_string_opt exact_digits i = Inr t"
    by (simp add: response_ok_def)
  then show ?thesis
    using save_always_notifies_once [of exact_digits "ascii ''a.png''" "ascii ''p''" "[]" "Some False"
        "Responded ?r" idle]
    by (auto simp: idle_def)
qed

text \<open>
  A response with status 200 whose body is the JSON text \<open>{}\<close>: the body parses,
  \<open>result.data\<close> is \<open>undefined\<close>, reading its \<open>image_id\<close> throws, and the
  notification is the one of a failure.
\<close>

theorem empty_object_body_fails:
  "response_ok \<lparr>status = 200, body_json = Inr (JObj [])\<rparr> \<and>
   map_sum id (map title \<circ> notifications)
     (handleSaveImage exact_digits (ascii ''a.png'') (ascii ''p'') [] (Some False)
        (Responded \<lparr>status = 200, body_json = Inr (JObj [])\<rparr>) idle) = Inr [failure_title] \<and>
   failure_title \<noteq> success_title"
  by (simp add: handleSaveImage_def try_block_def success_text_def response_ok_def
      showNotification_def idle_def success_title_def failure_title_def)

end
